theory Spec2Isabelle
  imports Main "HOL-Library.AList" "HOL-Library.Sublist"
begin

section \<open>The query library of \<^verbatim>\<open>src/state/query/lib.ts\<close>\<close>

text \<open>
  The development follows the TypeScript source function by function.  One \<^verbatim>\<open>Query\<close>
  object, together with the value of its \<^verbatim>\<open>query\<close> store, is a record; every method is
  a function from the record to the updated record.

  The asynchronous \<^verbatim>\<open>fetcher\<close> is a coroutine.  It suspends at exactly two places, the
  \<^verbatim>\<open>await this.fetch()\<close> and the \<^verbatim>\<open>await\<close> of the retry delay, and everything between two
  suspensions runs in one uninterrupted turn.  The record therefore carries the place
  where the coroutine is suspended (\<open>pc\<close>), and the fetcher is split into the three
  pieces that run in one turn each: \<open>fetcher\<close> (entry up to the first await),
  \<open>fetcher_resume\<close> (from a resolved fetch to the next await or the end) and
  \<open>fetcher_retry\<close> (from an elapsed retry delay to the next await).

  A turn is taken as a whole: the callbacks of the caller that run inside it (the
  subscribers of a store, \<^verbatim>\<open>onRetry\<close>, the duration functions) return a value and do
  not call back into the Query.

  Durations and dates are natural numbers of milliseconds; \<^verbatim>\<open>false\<close> in a
  \<^verbatim>\<open>number | false\<close> field is \<open>None\<close>.  A timer handle field holds \<open>Some d\<close> while a
  timer of delay \<open>d\<close> is pending and \<open>None\<close> for \<^verbatim>\<open>undefined\<close>.
\<close>

subsection \<open>Results\<close>

datatype ('d, 'e) query_result =
    QIdle
  | QLoading
  | QErr bool 'e
  | QOk 'd

datatype ('d, 'e) fetch_result =
    FetchRetry 'e bool
  | FetchErr 'e
  | FetchOk 'd

subsection \<open>Options\<close>

record ('d, 'e) use_query_options =
  onRetry :: "nat \<Rightarrow> 'e \<Rightarrow> nat option"
  opt_stale_onSubscribeIfUnused :: bool
  opt_stale_duration :: "('d, 'e) query_result \<Rightarrow> nat option"
  opt_stale_refetchIfUnused :: bool
  opt_cache_duration :: "'d \<Rightarrow> nat option"

text \<open>The initialiser of the field \<^verbatim>\<open>Query.options\<close>.\<close>

definition default_options :: "('d, 'e) use_query_options" where
  "default_options =
     \<lparr> onRetry = (\<lambda>count err. if count > 3 then None else Some 0),
       opt_stale_onSubscribeIfUnused = False,
       opt_stale_duration = (\<lambda>last. None),
       opt_stale_refetchIfUnused = False,
       opt_cache_duration = (\<lambda>last. None) \<rparr>"

subsection \<open>The state of one Query\<close>

datatype fetch_pc =
    Settled
  | AwaitingFetch nat
  | AwaitingRetry nat

text \<open>
  \<open>AwaitingFetch count\<close>: suspended in \<^verbatim>\<open>await this.fetch()\<close> with the local \<^verbatim>\<open>count\<close>;
  \<open>AwaitingRetry count\<close>: suspended in the retry delay.  \<open>fetchCalls\<close> counts the
  invocations of \<^verbatim>\<open>this.fetch\<close> and \<open>retryWaits\<close> lists the delays handed to
  \<^verbatim>\<open>setTimeout\<close> by the retry branch, oldest first; \<open>unsubscribers\<close> counts the
  functions that \<^verbatim>\<open>subscribe\<close> has returned.  The program reads none of the three.
  \<open>subscribers\<close> is the counter of the constructor, a JavaScript number that may go
  below zero.  \<open>now\<close> is \<^verbatim>\<open>Date.now()\<close>.
\<close>

record ('d, 'e) query =
  options :: "('d, 'e) use_query_options"
  browser :: bool
  isFetching :: bool
  stoppedBy :: "nat set"
  dataInUse :: bool
  subscribers :: int
  unsubscribers :: nat
  current :: "('d, 'e) query_result"
  stale_turnsStaleAt :: "nat option"
  stale_duration :: "nat option"
  stale_timeout :: "nat option"
  stale_isStale :: bool
  cache_expiresAt :: "nat option"
  cache_duration :: "nat option"
  cache_timeout :: "nat option"
  cache_hasCached :: bool
  cache_data :: "'d option"
  pc :: fetch_pc
  fetchCalls :: nat
  retryWaits :: "nat list"
  now :: nat

subsection \<open>The derived store \<^verbatim>\<open>currentWithCaching_\<close>\<close>

definition currentWithCaching :: "('d, 'e) query_result \<Rightarrow> ('d, 'e) query \<Rightarrow> ('d, 'e) query_result" where
  "currentWithCaching cur q =
     (if cur = QIdle then cur
      else if \<not> stale_isStale q then
        (if cur = QLoading \<and> cache_data q \<noteq> None then QOk (the (cache_data q)) else cur)
      else if cache_hasCached q \<and> cache_data q \<noteq> None then QOk (the (cache_data q))
      else QLoading)"

text \<open>What a subscriber of \<^verbatim>\<open>query.current\<close> sees in state \<open>q\<close>.\<close>

definition exposed :: "('d, 'e) query \<Rightarrow> ('d, 'e) query_result" where
  "exposed q = currentWithCaching (current q) q"

subsection \<open>The fetcher, up to its first await\<close>

text \<open>The head of the \<^verbatim>\<open>while (true)\<close> body, up to \<^verbatim>\<open>await this.fetch()\<close>.\<close>

definition fetcher_loop :: "nat \<Rightarrow> ('d, 'e) query \<Rightarrow> ('d, 'e) query" where
  "fetcher_loop count q =
     (if stoppedBy q \<noteq> {} then q\<lparr>current := QIdle, isFetching := False\<rparr>
      else q\<lparr>fetchCalls := Suc (fetchCalls q), pc := AwaitingFetch count\<rparr>)"

definition fetcher :: "('d, 'e) query \<Rightarrow> ('d, 'e) query" where
  "fetcher q =
     (if \<not> browser q then q
      else if \<not> stale_isStale q then q
      else if isFetching q then q
      else fetcher_loop 0 (q\<lparr>isFetching := True, current := QLoading\<rparr>))"

subsection \<open>Staleness and cache\<close>

definition markStale :: "bool \<Rightarrow> ('d, 'e) query \<Rightarrow> ('d, 'e) query" where
  "markStale forceRefetch q =
     (let q' = q\<lparr>stale_timeout := None, stale_isStale := True,
                  stale_duration := None, stale_turnsStaleAt := None\<rparr>
      in if forceRefetch \<or> dataInUse q' \<or> opt_stale_refetchIfUnused (options q')
         then fetcher q' else q')"

definition clearCache :: "bool \<Rightarrow> ('d, 'e) query \<Rightarrow> ('d, 'e) query" where
  "clearCache forceRefetch q =
     markStale forceRefetch
       (q\<lparr>cache_timeout := None, cache_hasCached := False,
          cache_duration := None, cache_expiresAt := None\<rparr>)"

definition resetStaleTimer :: "('d, 'e) query_result \<Rightarrow> ('d, 'e) query \<Rightarrow> ('d, 'e) query" where
  "resetStaleTimer cur q =
     (case opt_stale_duration (options q) cur of
        None \<Rightarrow> q\<lparr>stale_duration := None, stale_turnsStaleAt := None, stale_timeout := None\<rparr>
      | Some duration \<Rightarrow>
          q\<lparr>stale_duration := Some duration,
            stale_turnsStaleAt := Some (now q + duration),
            stale_timeout := Some duration\<rparr>)"

definition setData :: "'d \<Rightarrow> ('d, 'e) query \<Rightarrow> ('d, 'e) query" where
  "setData data q =
     (let q1 = resetStaleTimer (QOk data) (q\<lparr>current := QOk data\<rparr>);
          q2 = q1\<lparr>cache_data := Some data, cache_hasCached := True\<rparr>
      in case opt_cache_duration (options q2) data of
           None \<Rightarrow> q2\<lparr>cache_duration := None, cache_expiresAt := None, cache_timeout := None\<rparr>
         | Some duration \<Rightarrow>
             q2\<lparr>cache_duration := Some duration,
                cache_expiresAt := Some (now q2 + duration),
                cache_timeout := Some duration\<rparr>)"

definition invalidateAndRefetch :: "('d, 'e) query \<Rightarrow> ('d, 'e) query" where
  "invalidateAndRefetch q = clearCache True q"

definition refetch :: "('d, 'e) query \<Rightarrow> ('d, 'e) query" where
  "refetch q = markStale True q"

subsection \<open>The fetcher, after its awaits\<close>

datatype fetcher_error = CurrentIdleOrLoading

text \<open>
  The code after the loop: the check that throws, then \<^verbatim>\<open>setData\<close> or \<^verbatim>\<open>clearCache\<close>,
  then \<^verbatim>\<open>isFetching = false\<close>.
\<close>

definition fetcher_finish :: "('d, 'e) query \<Rightarrow> fetcher_error + ('d, 'e) query" where
  "fetcher_finish q =
     (case current q of
        QIdle \<Rightarrow> Inl CurrentIdleOrLoading
      | QLoading \<Rightarrow> Inl CurrentIdleOrLoading
      | QOk data \<Rightarrow> Inr ((setData data q)\<lparr>isFetching := False\<rparr>)
      | QErr r e \<Rightarrow> Inr ((clearCache False q)\<lparr>isFetching := False\<rparr>))"

text \<open>
  One pass through the loop body after \<^verbatim>\<open>this.fetch()\<close> has resolved to \<open>result\<close>:
  either the loop is left by \<^verbatim>\<open>break\<close>, or the coroutine suspends in the retry delay.
\<close>

datatype ('d, 'e) loop_exit =
    Break "('d, 'e) query"
  | Suspend "('d, 'e) query"

definition fetcher_body :: "('d, 'e) fetch_result \<Rightarrow> nat \<Rightarrow> ('d, 'e) query \<Rightarrow> ('d, 'e) loop_exit" where
  "fetcher_body result count q =
     (case result of
        FetchRetry e returnError \<Rightarrow>
          (case onRetry (options q) (Suc count) e of
             None \<Rightarrow> Break (q\<lparr>current := QErr False e\<rparr>)
           | Some waitDuration \<Rightarrow>
               (let q1 = (if returnError then (clearCache False q)\<lparr>current := QErr True e\<rparr>
                          else q\<lparr>current := QLoading\<rparr>)
                in Suspend (q1\<lparr>retryWaits := retryWaits q1 @ [waitDuration],
                                pc := AwaitingRetry (Suc count)\<rparr>)))
      | FetchErr e \<Rightarrow> Break (q\<lparr>current := QErr False e\<rparr>)
      | FetchOk data \<Rightarrow> Break (q\<lparr>current := QOk data\<rparr>))"

text \<open>
  The turn that runs when the awaited fetch resolves.  Outside \<open>AwaitingFetch\<close> no
  fetch is awaited and nothing runs.
\<close>

definition fetcher_resume :: "('d, 'e) fetch_result \<Rightarrow> ('d, 'e) query \<Rightarrow> fetcher_error + ('d, 'e) query" where
  "fetcher_resume result q =
     (case pc q of
        AwaitingFetch count \<Rightarrow>
          (case fetcher_body result count (q\<lparr>pc := Settled\<rparr>) of
             Break q' \<Rightarrow> fetcher_finish q'
           | Suspend q' \<Rightarrow> Inr q')
      | _ \<Rightarrow> Inr q)"

text \<open>The turn that runs when the retry delay has elapsed: back to the loop head.\<close>

definition fetcher_retry :: "('d, 'e) query \<Rightarrow> ('d, 'e) query" where
  "fetcher_retry q =
     (case pc q of
        AwaitingRetry count \<Rightarrow> fetcher_loop count (q\<lparr>pc := Settled\<rparr>)
      | _ \<Rightarrow> q)"

subsection \<open>Subscribers\<close>

text \<open>
  \<^verbatim>\<open>currentWithCaching.subscribe\<close>, and the function it returns.  That function has no
  guard: every call of it decrements the counter, also a second call of the same one.
\<close>

definition subscribe :: "('d, 'e) query \<Rightarrow> ('d, 'e) query" where
  "subscribe q =
     (let q1 = q\<lparr>subscribers := subscribers q + 1, unsubscribers := Suc (unsubscribers q)\<rparr>
      in if subscribers q1 = 1 then
           (let q2 = q1\<lparr>dataInUse := True\<rparr>
            in if opt_stale_onSubscribeIfUnused (options q2) then markStale False q2
               else if stale_isStale q2 then refetch q2
               else q2)
         else q1)"

definition unsubscribe :: "('d, 'e) query \<Rightarrow> ('d, 'e) query" where
  "unsubscribe q =
     (let q1 = q\<lparr>subscribers := subscribers q - 1\<rparr>
      in if subscribers q1 = 0 then q1\<lparr>dataInUse := False\<rparr> else q1)"

subsection \<open>Dependencies\<close>

text \<open>
  The callbacks \<^verbatim>\<open>onChange\<close> and \<^verbatim>\<open>onStale\<close> belong to the caller; the model takes the
  value a callback returned.  \<open>dependencyChanged\<close> is the reaction that
  \<^verbatim>\<open>addDependencySubscription\<close> and \<^verbatim>\<open>addDependencyQuery\<close> share, \<open>dependencyStale\<close> the
  reaction of \<^verbatim>\<open>addDependencyQuery\<close> to \<^verbatim>\<open>onStale\<close> (\<open>StaleNothing\<close> also stands for a
  missing callback).
\<close>

datatype change_result = Nothing | Refetch | ClearCacheAndRefetch | Stop

datatype stale_result = StaleNothing | BecomeStale | StaleAndClear

definition dependencyChanged :: "nat \<Rightarrow> change_result \<Rightarrow> ('d, 'e) query \<Rightarrow> ('d, 'e) query" where
  "dependencyChanged i result q =
     (case result of
        Nothing \<Rightarrow> q\<lparr>stoppedBy := stoppedBy q - {i}\<rparr>
      | Refetch \<Rightarrow> refetch (q\<lparr>stoppedBy := stoppedBy q - {i}\<rparr>)
      | ClearCacheAndRefetch \<Rightarrow> invalidateAndRefetch (q\<lparr>stoppedBy := stoppedBy q - {i}\<rparr>)
      | Stop \<Rightarrow> invalidateAndRefetch (q\<lparr>stoppedBy := insert i (stoppedBy q)\<rparr>))"

definition dependencyStale :: "stale_result \<Rightarrow> ('d, 'e) query \<Rightarrow> ('d, 'e) query" where
  "dependencyStale result q =
     (case result of
        StaleNothing \<Rightarrow> q
      | BecomeStale \<Rightarrow> markStale False q
      | StaleAndClear \<Rightarrow> clearCache False q)"

text \<open>
  A declared dependency, as the constructor meets it.  A store dependency calls its
  subscriber at once, \<^verbatim>\<open>last\<close> being \<^verbatim>\<open>QUERY_INIT\<close>, so \<^verbatim>\<open>onChange\<close> answers during
  construction: \<open>DepSubscription r\<close> carries that answer.  A query dependency puts its
  index into \<^verbatim>\<open>stoppedBy\<close> and reacts in later turns only.
\<close>

datatype dependency = DepSubscription change_result | DepQuery

fun subscribeToDependencies :: "nat \<Rightarrow> dependency list \<Rightarrow> ('d, 'e) query \<Rightarrow> ('d, 'e) query" where
  "subscribeToDependencies i [] q = q"
| "subscribeToDependencies i (dep # deps) q =
     subscribeToDependencies (Suc i) deps
       (case dep of
          DepSubscription r \<Rightarrow> dependencyChanged i r q
        | DepQuery \<Rightarrow> q\<lparr>stoppedBy := insert i (stoppedBy q)\<rparr>)"

subsection \<open>Construction\<close>

definition init_query :: "('d, 'e) use_query_options \<Rightarrow> bool \<Rightarrow> nat \<Rightarrow> ('d, 'e) query" where
  "init_query opts br t =
     \<lparr> options = opts, browser = br, isFetching = False, stoppedBy = {},
       dataInUse = False, subscribers = 0, unsubscribers = 0, current = QIdle,
       stale_turnsStaleAt = None, stale_duration = None, stale_timeout = None,
       stale_isStale = True,
       cache_expiresAt = None, cache_duration = None, cache_timeout = None,
       cache_hasCached = False, cache_data = None,
       pc = Settled, fetchCalls = 0, retryWaits = [], now = t \<rparr>"

text \<open>
  The constructor: \<open>opts\<close> are the merged options, \<open>br\<close> is \<^verbatim>\<open>browser\<close> of
  \<^verbatim>\<open>$app/environment\<close>, \<open>deps\<close> is \<^verbatim>\<open>options.dependencies\<close> and \<open>t\<close> the time.
\<close>

definition new_Query :: "('d, 'e) use_query_options \<Rightarrow> bool \<Rightarrow> dependency list \<Rightarrow> nat \<Rightarrow> ('d, 'e) query" where
  "new_Query opts br deps t = fetcher (subscribeToDependencies 0 deps (init_query opts br t))"

subsection \<open>Turns of the event loop\<close>

text \<open>
  Everything that can run on a constructed Query, one constructor per kind of turn.
  A timer fires only while its handle is pending; the model does not say when.  An
  unsubscribe function can be called once \<^verbatim>\<open>subscribe\<close> has returned one.
\<close>

datatype ('d, 'e) event =
    Subscribe
  | Unsubscribe
  | FetchSettled "('d, 'e) fetch_result"
  | RetryElapsed
  | StaleTimeout
  | CacheTimeout
  | CallMarkStale
  | CallRefetch
  | CallInvalidate
  | CallInvalidateAndRefetch
  | CallUpdateData 'd
  | DependencyChanged nat change_result
  | DependencyStale stale_result
  | Tick nat

definition step :: "('d, 'e) event \<Rightarrow> ('d, 'e) query \<Rightarrow> fetcher_error + ('d, 'e) query" where
  "step ev q =
     (case ev of
        Subscribe \<Rightarrow> Inr (subscribe q)
      | Unsubscribe \<Rightarrow> Inr (if unsubscribers q = 0 then q else unsubscribe q)
      | FetchSettled r \<Rightarrow> fetcher_resume r q
      | RetryElapsed \<Rightarrow> Inr (fetcher_retry q)
      | StaleTimeout \<Rightarrow> Inr (if stale_timeout q = None then q else markStale False q)
      | CacheTimeout \<Rightarrow> Inr (if cache_timeout q = None then q else clearCache False q)
      | CallMarkStale \<Rightarrow> Inr (markStale False q)
      | CallRefetch \<Rightarrow> Inr (refetch q)
      | CallInvalidate \<Rightarrow> Inr (clearCache False q)
      | CallInvalidateAndRefetch \<Rightarrow> Inr (invalidateAndRefetch q)
      | CallUpdateData data \<Rightarrow> Inr (setData data q)
      | DependencyChanged i r \<Rightarrow> Inr (dependencyChanged i r q)
      | DependencyStale r \<Rightarrow> Inr (dependencyStale r q)
      | Tick n \<Rightarrow> Inr (q\<lparr>now := now q + n\<rparr>))"

inductive reachable :: "('d, 'e) query \<Rightarrow> bool" where
  created: "reachable (new_Query opts br deps t)"
| turn: "reachable q \<Longrightarrow> step ev q = Inr q' \<Longrightarrow> reachable q'"

text \<open>
  A whole fetch, for a caller's \<^verbatim>\<open>fetch\<close> whose successive invocations resolve to the
  listed results: each result resumes the awaited fetch, and a retry delay that follows
  elapses before the next one.  The run ends when the fetcher has finished or the list
  is used up.
\<close>

fun run_fetch :: "('d, 'e) fetch_result list \<Rightarrow> ('d, 'e) query \<Rightarrow> fetcher_error + ('d, 'e) query" where
  "run_fetch [] q = Inr q"
| "run_fetch (r # rs) q =
     (case pc q of
        AwaitingFetch count \<Rightarrow>
          (case fetcher_resume r q of
             Inl err \<Rightarrow> Inl err
           | Inr q' \<Rightarrow> run_fetch rs (fetcher_retry q'))
      | _ \<Rightarrow> Inr q)"

section \<open>Merging the caller's options over the defaults\<close>

text \<open>
  The constructor computes
  \<^verbatim>\<open>{ ...this.options, ...recursiveRemoveUndefined(options) }\<close> on JavaScript objects, so
  this part works on objects: a value is \<^verbatim>\<open>undefined\<close>, an atom (a boolean, a function:
  anything \<^verbatim>\<open>for ... in\<close> finds no key in) or an object, the list of its own properties
  in insertion order.  An array is the object of its indices.
\<close>

datatype 'a js =
    JUndefined
  | JAtom 'a
  | JObject "(string \<times> 'a js) list"

fun recursiveRemoveUndefined :: "'a js \<Rightarrow> 'a js" where
  "recursiveRemoveUndefined (JObject obj) =
     JObject (map (\<lambda>kv. (fst kv, recursiveRemoveUndefined (snd kv)))
                  (filter (\<lambda>kv. snd kv \<noteq> JUndefined) obj))"
| "recursiveRemoveUndefined v = v"

text \<open>Object spread \<^verbatim>\<open>{ ...a, ...b }\<close>: the own properties of \<open>a\<close>, then those of \<open>b\<close>.\<close>

definition spread :: "(string \<times> 'a js) list \<Rightarrow> (string \<times> 'a js) list \<Rightarrow> (string \<times> 'a js) list" where
  "spread a b = foldl (\<lambda>acc kv. AList.update (fst kv) (snd kv) acc) a b"

text \<open>
  Reading \<^verbatim>\<open>v.k\<close>: a missing property reads as \<^verbatim>\<open>undefined\<close>, and reading a property
  of \<^verbatim>\<open>undefined\<close> throws a \<^verbatim>\<open>TypeError\<close> (\<open>None\<close>).
\<close>

fun member_of :: "'a js \<Rightarrow> string \<Rightarrow> 'a js option" where
  "member_of JUndefined k = None"
| "member_of (JAtom a) k = Some JUndefined"
| "member_of (JObject obj) k = (case map_of obj k of None \<Rightarrow> Some JUndefined | Some v \<Rightarrow> Some v)"

fun read_path :: "'a js \<Rightarrow> string list \<Rightarrow> 'a js option" where
  "read_path v [] = Some v"
| "read_path v (k # ks) = (case member_of v k of None \<Rightarrow> None | Some w \<Rightarrow> read_path w ks)"

datatype option_atom = ABool bool | AFunction string

text \<open>
  The initialiser of \<^verbatim>\<open>Query.options\<close> as an object; a function is named by what it
  does.
\<close>

definition default_options_object :: "option_atom js" where
  "default_options_object =
     JObject
       [(''dependencies'', JObject []),
        (''onRetry'', JAtom (AFunction ''count > 3 ? false : 0'')),
        (''stale'',
           JObject [(''onSubscribeIfUnused'', JAtom (ABool False)),
                    (''duration'', JAtom (AFunction ''() => false'')),
                    (''refetchIfUnused'', JAtom (ABool False))]),
        (''cache'', JObject [(''duration'', JAtom (AFunction ''() => false''))])]"

text \<open>The assignment to \<^verbatim>\<open>this.options\<close> in the constructor.\<close>

definition merged_options :: "option_atom js \<Rightarrow> option_atom js" where
  "merged_options opts =
     (case (default_options_object, recursiveRemoveUndefined opts) of
        (JObject defaults, JObject given) \<Rightarrow> JObject (spread defaults given)
      | (JObject defaults, _) \<Rightarrow> JObject defaults
      | _ \<Rightarrow> JUndefined)"

section \<open>The query map\<close>

text \<open>
  The value of the \<^verbatim>\<open>queryMap\<close> store is a tree of JavaScript objects, and \<^verbatim>\<open>getQuery\<close>
  walks it with \<^verbatim>\<open>qmItem[subKey]\<close>, which finds inherited members as well as own
  properties.  An object is a node: its kind and its own properties in insertion order.
  A key segment is a property name (JavaScript turns a number into its decimal string).
  \<^item> \<open>Plain\<close>: an object made by \<^verbatim>\<open>{}\<close>; \<^verbatim>\<open>Object.prototype\<close> is one as well.
  \<^item> \<open>Writable q\<close>: the store of the Query \<open>q\<close>.  \<^verbatim>\<open>writable\<close> of \<^verbatim>\<open>svelte/store\<close> returns
    the object \<^verbatim>\<open>{ set, update, subscribe }\<close>, three own properties holding functions.
  \<^item> \<open>Function\<close>: a function object.
\<close>

datatype 'q kind = Plain | Function | Writable 'q

datatype 'q node = Node (kind: "'q kind") (props: "(string \<times> 'q node) list")

definition writable :: "'q \<Rightarrow> 'q node" where
  "writable q =
     Node (Writable q)
       [(''set'', Node Function []), (''update'', Node Function []),
        (''subscribe'', Node Function [])]"

text \<open>
  Every plain object and every store inherits from \<^verbatim>\<open>Object.prototype\<close>.  Its data
  members are functions; \<^verbatim>\<open>__proto__\<close> is an accessor and is treated where members are
  looked up.
\<close>

definition inherited_functions :: "string list" where
  "inherited_functions =
     [''constructor'', ''__defineGetter__'', ''__defineSetter__'', ''hasOwnProperty'',
      ''__lookupGetter__'', ''__lookupSetter__'', ''isPrototypeOf'',
      ''propertyIsEnumerable'', ''toString'', ''valueOf'', ''toLocaleString'']"

definition Object_prototype :: "'q node" where
  "Object_prototype = Node Plain (map (\<lambda>k. (k, Node Function [])) inherited_functions)"

text \<open>
  Names that a function object may hold itself or inherit from \<^verbatim>\<open>Function.prototype\<close>
  (the last row lists the static members of \<^verbatim>\<open>Object\<close>, the value of \<^verbatim>\<open>constructor\<close>).
  Neither \<^verbatim>\<open>Function.prototype\<close> nor the values of these members are modelled: a walk that
  asks a function for one of them leaves the model, and the functions below return
  \<open>None\<close> for it.
\<close>

definition function_members :: "string list" where
  "function_members =
     [''length'', ''name'', ''prototype'', ''arguments'', ''caller'',
      ''apply'', ''bind'', ''call'', ''constructor'', ''toString'', ''__proto__'',
      ''assign'', ''create'', ''defineProperties'', ''defineProperty'', ''entries'',
      ''freeze'', ''fromEntries'', ''getOwnPropertyDescriptor'',
      ''getOwnPropertyDescriptors'', ''getOwnPropertyNames'', ''getOwnPropertySymbols'',
      ''getPrototypeOf'', ''groupBy'', ''hasOwn'', ''is'', ''isExtensible'', ''isFrozen'',
      ''isSealed'', ''keys'', ''preventExtensions'', ''seal'', ''setPrototypeOf'',
      ''values'']"

text \<open>
  What a walk can reach and write: the value of the \<^verbatim>\<open>queryMap\<close> store and
  \<^verbatim>\<open>Object.prototype\<close>, each a tree.  \<open>queryMap_sets\<close> counts the calls of \<^verbatim>\<open>set\<close> and
  \<^verbatim>\<open>update\<close> on the \<^verbatim>\<open>queryMap\<close> store; such a call is what runs the subscribers of the
  store.  A place is a root and the path of own properties from it.
\<close>

record 'q realm =
  queryMap_value :: "'q node"
  queryMap_sets :: nat
  object_prototype :: "'q node"

datatype root = InQueryMap | InPrototype

type_synonym place = "root \<times> string list"

fun node_at :: "'q node \<Rightarrow> string list \<Rightarrow> 'q node option" where
  "node_at n [] = Some n"
| "node_at n (k # ks) = (case map_of (props n) k of None \<Rightarrow> None | Some child \<Rightarrow> node_at child ks)"


definition root_node :: "'q realm \<Rightarrow> root \<Rightarrow> 'q node" where
  "root_node R r = (case r of InQueryMap \<Rightarrow> queryMap_value R | InPrototype \<Rightarrow> object_prototype R)"

definition object_at :: "'q realm \<Rightarrow> place \<Rightarrow> 'q node option" where
  "object_at R pl = node_at (root_node R (fst pl)) (snd pl)"

text \<open>The assignment \<^verbatim>\<open>obj[k] = child\<close>, \<open>obj\<close> being the object at \<open>path\<close> in the tree.\<close>

fun insert_at :: "'q node \<Rightarrow> string list \<Rightarrow> string \<Rightarrow> 'q node \<Rightarrow> 'q node" where
  "insert_at n [] k child = Node (kind n) (AList.update k child (props n))"
| "insert_at n (p # path) k child =
     (case map_of (props n) p of
        None \<Rightarrow> n
      | Some c \<Rightarrow> Node (kind n) (AList.update p (insert_at c path k child) (props n)))"

definition assign :: "'q realm \<Rightarrow> place \<Rightarrow> string \<Rightarrow> 'q node \<Rightarrow> 'q realm" where
  "assign R pl k child =
     (case fst pl of
        InQueryMap \<Rightarrow> R\<lparr>queryMap_value := insert_at (queryMap_value R) (snd pl) k child\<rparr>
      | InPrototype \<Rightarrow> R\<lparr>object_prototype := insert_at (object_prototype R) (snd pl) k child\<rparr>)"

text \<open>
  The value of \<^verbatim>\<open>obj[k]\<close> for the object \<open>obj\<close> at place \<open>pl\<close>: an own property; else, for
  a function, nothing the model knows if \<open>k\<close> is a name of \<open>function_members\<close>; else
  \<^verbatim>\<open>__proto__\<close> is the prototype, \<^verbatim>\<open>null\<close> for \<^verbatim>\<open>Object.prototype\<close> itself; else a property
  of \<^verbatim>\<open>Object.prototype\<close>; else \<^verbatim>\<open>undefined\<close>.
\<close>

datatype member = ObjectAt place | Null | Undefined | Unmodelled

definition member :: "'q realm \<Rightarrow> place \<Rightarrow> 'q node \<Rightarrow> string \<Rightarrow> member" where
  "member R pl obj k =
     (if map_of (props obj) k \<noteq> None then ObjectAt (fst pl, snd pl @ [k])
      else if kind obj = Function \<and> k \<in> set function_members then Unmodelled
      else if k = ''__proto__'' then
        (if pl = (InPrototype, []) then Null else ObjectAt (InPrototype, []))
      else if map_of (props (object_prototype R)) k \<noteq> None then ObjectAt (InPrototype, [k])
      else Undefined)"












text \<open>
  The call \<^verbatim>\<open>queryMap.update(...)\<close> that ends \<^verbatim>\<open>useQuery\<close>: the callback walks
  \<^verbatim>\<open>key.slice(0, -1)\<close> with \<^verbatim>\<open>item = item[subKey]\<close> and assigns the store of the new Query
  to \<^verbatim>\<open>item[key[key.length - 1]]\<close>; \<^verbatim>\<open>update\<close> then sets the value of the store.  When
  the walk meets \<^verbatim>\<open>undefined\<close> or \<^verbatim>\<open>null\<close> the callback throws and nothing is set (\<open>True\<close>).
  JavaScript reads \<^verbatim>\<open>key[-1]\<close> of an empty key as \<^verbatim>\<open>undefined\<close>, the property name
  \<^verbatim>\<open>'undefined'\<close>.
\<close>

fun register_walk :: "'q realm \<Rightarrow> place \<Rightarrow> string list \<Rightarrow> place option option" where
  "register_walk R pl [] = Some (Some pl)"
| "register_walk R pl (subKey # key) =
     (case object_at R pl of
        None \<Rightarrow> None
      | Some item \<Rightarrow>
          (case member R pl item subKey of
             Unmodelled \<Rightarrow> None
           | Null \<Rightarrow> Some None
           | Undefined \<Rightarrow> Some None
           | ObjectAt pl' \<Rightarrow> register_walk R pl' key))"

definition useQuery_register :: "'q realm \<Rightarrow> string list \<Rightarrow> 'q \<Rightarrow> ('q realm \<times> bool) option" where
  "useQuery_register R key q =
     (case register_walk R (InQueryMap, []) (butlast key) of
        None \<Rightarrow> None
      | Some None \<Rightarrow> Some (R, True)
      | Some (Some pl) \<Rightarrow>
          (let k = (if key = [] then ''undefined'' else last key)
           in case object_at R pl of
                None \<Rightarrow> None
              | Some item \<Rightarrow>
                  if k = ''__proto__'' \<or> (kind item = Function \<and> k \<in> set function_members)
                  then None
                  else Some ((assign R pl k (writable q))\<lparr>queryMap_sets := Suc (queryMap_sets R)\<rparr>,
                             False)))"



section \<open>Notions used in the statements\<close>

text \<open>
  The specification derives the exposed result from \<open>current\<close>, the stale flag and
  whether ``the cache has data''.  Its data model says when that is: \<^verbatim>\<open>hasCached\<close> is
  set and \<^verbatim>\<open>data\<close> holds a value (a value that \<^verbatim>\<open>clearCache\<close> leaves behind is ``flagged
  unavailable'').  \<open>exposed_as_claimed\<close> is the derivation written from the
  specification's words.
\<close>

definition cache_has_data :: "('d, 'e) query \<Rightarrow> bool" where
  "cache_has_data q = (cache_hasCached q \<and> cache_data q \<noteq> None)"

definition exposed_as_claimed :: "('d, 'e) query_result \<Rightarrow> ('d, 'e) query \<Rightarrow> ('d, 'e) query_result" where
  "exposed_as_claimed cur q =
     (if cur = QIdle then QIdle
      else if \<not> stale_isStale q \<and> cur = QLoading \<and> cache_has_data q then QOk (the (cache_data q))
      else if \<not> stale_isStale q then cur
      else if cache_has_data q then QOk (the (cache_data q))
      else QLoading)"

text \<open>
  \<open>isFetching\<close> is set exactly while the fetcher is suspended in one of its awaits.
  This is what lets one \<open>pc\<close> stand for the coroutine: a second fetcher never gets past
  the \<^verbatim>\<open>isFetching\<close> guard while the first is suspended.
\<close>

definition consistent :: "('d, 'e) query \<Rightarrow> bool" where
  "consistent q = (stale_isStale q \<and> (isFetching q \<longleftrightarrow> pc q \<noteq> Settled))"

subsection \<open>Concrete queries\<close>

text \<open>Data are numbers and errors are strings in the examples.\<close>

definition unstarted_query :: "(nat, string) query" where
  "unstarted_query = init_query default_options True 0"

definition fresh_query :: "(nat, string) query" where
  "fresh_query = new_Query default_options True [] 0"

definition timed_options :: "(nat, string) use_query_options" where
  "timed_options = default_options\<lparr>opt_stale_duration := (\<lambda>last. Some 1000)\<rparr>"

definition timed_query :: "(nat, string) query" where
  "timed_query = new_Query timed_options True [] 0"

definition two_retry_options :: "(nat, string) use_query_options" where
  "two_retry_options = default_options\<lparr>onRetry := (\<lambda>count err. if count < 3 then Some 0 else None)\<rparr>"

text \<open>
  A query that holds 7 in its cache and, by hand, is not stale (no turn makes it so).
\<close>

definition served_query :: "(nat, string) query" where
  "served_query = (setData 7 unstarted_query)\<lparr>stale_isStale := False\<rparr>"

definition stopped_query :: "(nat, string) query" where
  "stopped_query = unstarted_query\<lparr>stoppedBy := {2}\<rparr>"

text \<open>
  The realm before any Query is made, and the one in which \<open>fresh_query\<close> is registered
  under the key \<^verbatim>\<open>['user']\<close>.
\<close>

definition empty_realm :: "(nat, string) query realm" where
  "empty_realm =
     \<lparr> queryMap_value = Node Plain [], queryMap_sets = 0, object_prototype = Object_prototype \<rparr>"

definition example_realm :: "(nat, string) query realm" where
  "example_realm =
     \<lparr> queryMap_value = Node Plain [(''user'', writable fresh_query)],
       queryMap_sets = 1,
       object_prototype = Object_prototype \<rparr>"

section \<open>Properties of the Query\<close>

subsection \<open>Staleness is never reset\<close>

lemma fetcher_keeps_stale: "stale_isStale q \<Longrightarrow> stale_isStale (fetcher q)"
  by (simp add: fetcher_def fetcher_loop_def)

lemma markStale_stale: "stale_isStale (markStale force q)"
  by (simp add: markStale_def Let_def fetcher_def fetcher_loop_def)

lemma clearCache_stale: "stale_isStale (clearCache force q)"
  by (simp add: clearCache_def markStale_stale)

lemma resetStaleTimer_keeps_stale: "stale_isStale (resetStaleTimer cur q) = stale_isStale q"
  by (simp add: resetStaleTimer_def split: option.splits)

lemma setData_keeps_stale: "stale_isStale (setData data q) = stale_isStale q"
  by (simp add: setData_def Let_def resetStaleTimer_def split: option.splits)

lemma subscribe_keeps_stale: "stale_isStale q \<Longrightarrow> stale_isStale (subscribe q)"
  by (simp add: subscribe_def Let_def refetch_def markStale_stale)

lemma unsubscribe_keeps_stale: "stale_isStale (unsubscribe q) = stale_isStale q"
  by (simp add: unsubscribe_def Let_def)

lemma dependencyChanged_keeps_stale: "stale_isStale q \<Longrightarrow> stale_isStale (dependencyChanged i r q)"
  by (cases r)
     (simp_all add: dependencyChanged_def refetch_def invalidateAndRefetch_def
        markStale_stale clearCache_stale)

lemma dependencyStale_keeps_stale: "stale_isStale q \<Longrightarrow> stale_isStale (dependencyStale r q)"
  by (cases r) (simp_all add: dependencyStale_def markStale_stale clearCache_stale)

lemma fetcher_retry_keeps_stale: "stale_isStale (fetcher_retry q) = stale_isStale q"
  by (simp add: fetcher_retry_def fetcher_loop_def split: fetch_pc.splits)

lemma fetcher_finish_keeps_stale:
  "stale_isStale q \<Longrightarrow> fetcher_finish q = Inr q' \<Longrightarrow> stale_isStale q'"
  by (auto simp add: fetcher_finish_def setData_keeps_stale clearCache_stale
      split: query_result.splits)

lemma fetcher_body_keeps_stale:
  assumes "stale_isStale q"
    and "fetcher_body r count q = Break q' \<or> fetcher_body r count q = Suspend q'"
  shows "stale_isStale q'"
proof (cases r)
  case (FetchRetry e returnError)
  show ?thesis
  proof (cases "onRetry (options q) (Suc count) e")
    case None
    with assms FetchRetry show ?thesis by (auto simp add: fetcher_body_def)
  next
    case (Some waitDuration)
    with assms FetchRetry show ?thesis
      by (cases returnError) (auto simp add: fetcher_body_def Let_def clearCache_stale)
  qed
next
  case (FetchErr e)
  with assms show ?thesis by (auto simp add: fetcher_body_def)
next
  case (FetchOk data)
  with assms show ?thesis by (auto simp add: fetcher_body_def)
qed

lemma fetcher_resume_keeps_stale:
  assumes "stale_isStale q" and "fetcher_resume r q = Inr q'"
  shows "stale_isStale q'"
proof (cases "pc q")
  case Settled
  with assms(2) have "q' = q" by (simp add: fetcher_resume_def)
  with assms(1) show ?thesis by simp
next
  case (AwaitingRetry count)
  with assms(2) have "q' = q" by (simp add: fetcher_resume_def)
  with assms(1) show ?thesis by simp
next
  case (AwaitingFetch count)
  let ?q0 = "q\<lparr>pc := Settled\<rparr>"
  have s0: "stale_isStale ?q0" using assms(1) by simp
  show ?thesis
  proof (cases "fetcher_body r count ?q0")
    case (Break q1)
    with assms(2) AwaitingFetch have "fetcher_finish q1 = Inr q'"
      by (simp add: fetcher_resume_def)
    moreover have "stale_isStale q1"
      using fetcher_body_keeps_stale [OF s0, of r count q1] Break by simp
    ultimately show ?thesis by (rule fetcher_finish_keeps_stale [rotated])
  next
    case (Suspend q1)
    with assms(2) AwaitingFetch have "q' = q1" by (simp add: fetcher_resume_def)
    then show ?thesis
      using fetcher_body_keeps_stale [OF s0, of r count q1] Suspend by simp
  qed
qed

lemma step_keeps_stale:
  assumes "stale_isStale q" and "step ev q = Inr q'"
  shows "stale_isStale q'"
proof (cases ev)
  case (FetchSettled r)
  with assms show ?thesis by (simp add: step_def fetcher_resume_keeps_stale)
qed (use assms in \<open>auto simp add: step_def subscribe_keeps_stale unsubscribe_keeps_stale
      fetcher_retry_keeps_stale markStale_stale clearCache_stale setData_keeps_stale
      dependencyChanged_keeps_stale dependencyStale_keeps_stale refetch_def
      invalidateAndRefetch_def\<close>)

lemma subscribeToDependencies_keeps_stale:
  "stale_isStale q \<Longrightarrow> stale_isStale (subscribeToDependencies i deps q)"
proof (induction deps arbitrary: i q)
  case Nil
  then show ?case by simp
next
  case (Cons dep deps)
  have "stale_isStale (case dep of DepSubscription r \<Rightarrow> dependencyChanged i r q
        | DepQuery \<Rightarrow> q\<lparr>stoppedBy := insert i (stoppedBy q)\<rparr>)"
    using Cons.prems by (cases dep) (simp_all add: dependencyChanged_keeps_stale)
  then show ?case by (simp add: Cons.IH)
qed

lemma new_Query_stale: "stale_isStale (new_Query opts br deps t)"
  unfolding new_Query_def
  by (rule fetcher_keeps_stale, rule subscribeToDependencies_keeps_stale)
     (simp add: init_query_def)

lemma reachable_stale: "reachable q \<Longrightarrow> stale_isStale q"
  by (induction rule: reachable.induct) (simp_all add: new_Query_stale step_keeps_stale)

subsection \<open>One fetcher at a time\<close>

lemma consistent_frame [simp]:
  "consistent (q\<lparr>subscribers := n\<rparr>) = consistent q"
  "consistent (q\<lparr>unsubscribers := m\<rparr>) = consistent q"
  "consistent (q\<lparr>dataInUse := b\<rparr>) = consistent q"
  "consistent (q\<lparr>stoppedBy := S\<rparr>) = consistent q"
  "consistent (q\<lparr>now := t\<rparr>) = consistent q"
  "consistent (q\<lparr>current := c\<rparr>) = consistent q"
  "consistent (q\<lparr>retryWaits := w\<rparr>) = consistent q"
  by (simp_all add: consistent_def)

lemma fetcher_consistent: "consistent q \<Longrightarrow> consistent (fetcher q)"
  by (simp add: consistent_def fetcher_def fetcher_loop_def)

lemma markStale_consistent: "consistent q \<Longrightarrow> consistent (markStale force q)"
  by (simp add: consistent_def markStale_def Let_def fetcher_def fetcher_loop_def)

lemma clearCache_consistent: "consistent q \<Longrightarrow> consistent (clearCache force q)"
  unfolding clearCache_def by (rule markStale_consistent) (simp add: consistent_def)

lemma setData_consistent: "consistent q \<Longrightarrow> consistent (setData data q)"
  by (simp add: consistent_def setData_def resetStaleTimer_def Let_def split: option.splits)

lemma subscribe_consistent: "consistent q \<Longrightarrow> consistent (subscribe q)"
  by (simp add: subscribe_def Let_def refetch_def markStale_consistent)

lemma unsubscribe_consistent: "consistent q \<Longrightarrow> consistent (unsubscribe q)"
  by (simp add: unsubscribe_def Let_def)

lemma dependencyChanged_consistent: "consistent q \<Longrightarrow> consistent (dependencyChanged i r q)"
  by (cases r)
     (simp_all add: dependencyChanged_def refetch_def invalidateAndRefetch_def
        markStale_consistent clearCache_consistent)

lemma dependencyStale_consistent: "consistent q \<Longrightarrow> consistent (dependencyStale r q)"
  by (cases r) (simp_all add: dependencyStale_def markStale_consistent clearCache_consistent)

lemma fetcher_retry_consistent: "consistent q \<Longrightarrow> consistent (fetcher_retry q)"
  by (simp add: fetcher_retry_def fetcher_loop_def consistent_def split: fetch_pc.splits)

lemma markStale_while_fetching:
  "isFetching q \<Longrightarrow>
   markStale force q =
     q\<lparr>stale_timeout := None, stale_isStale := True, stale_duration := None,
       stale_turnsStaleAt := None\<rparr>"
  by (simp add: markStale_def Let_def fetcher_def)

lemma fetcher_resume_consistent:
  assumes "consistent q" and "fetcher_resume r q = Inr q'"
  shows "consistent q'"
  using assms
  by (auto simp add: fetcher_resume_def fetcher_body_def fetcher_finish_def consistent_def
      clearCache_def markStale_while_fetching setData_def resetStaleTimer_def Let_def
      split: fetch_pc.splits fetch_result.splits option.splits if_splits)

lemma subscribeToDependencies_consistent:
  "consistent q \<Longrightarrow> consistent (subscribeToDependencies i deps q)"
proof (induction deps arbitrary: i q)
  case Nil
  then show ?case by simp
next
  case (Cons dep deps)
  have "consistent (case dep of DepSubscription r \<Rightarrow> dependencyChanged i r q
        | DepQuery \<Rightarrow> q\<lparr>stoppedBy := insert i (stoppedBy q)\<rparr>)"
    using Cons.prems by (cases dep) (simp_all add: dependencyChanged_consistent)
  then show ?case by (simp add: Cons.IH)
qed

lemma new_Query_consistent: "consistent (new_Query opts br deps t)"
  unfolding new_Query_def
  by (rule fetcher_consistent, rule subscribeToDependencies_consistent)
     (simp add: consistent_def init_query_def)

lemma step_consistent:
  assumes "consistent q" and "step ev q = Inr q'"
  shows "consistent q'"
proof (cases ev)
  case (FetchSettled r)
  with assms show ?thesis by (simp add: step_def fetcher_resume_consistent)
qed (use assms in \<open>auto simp add: step_def subscribe_consistent unsubscribe_consistent
      fetcher_retry_consistent markStale_consistent clearCache_consistent setData_consistent
      dependencyChanged_consistent dependencyStale_consistent refetch_def
      invalidateAndRefetch_def\<close>)

lemma reachable_consistent: "reachable q \<Longrightarrow> consistent q"
  by (induction rule: reachable.induct) (simp_all add: new_Query_consistent step_consistent)

subsection \<open>The exposed result\<close>

lemma derivation_agrees:
  "stale_isStale q \<or> cache_hasCached q \<or> cur \<noteq> QLoading \<or> cache_data q = None \<Longrightarrow>
   currentWithCaching cur q = exposed_as_claimed cur q"
  by (auto simp add: currentWithCaching_def exposed_as_claimed_def cache_has_data_def)

text \<open>
  Claim C1: the exposed result of a Query is a function of \<open>current\<close> and the stale and
  cache fields, computed as the specification says: idle stays idle; not stale and
  loading with data in the cache gives \<^verbatim>\<open>ok\<close> with the cached data; not stale otherwise
  gives \<open>current\<close>; stale with data gives \<^verbatim>\<open>ok\<close> with the cached data; stale without gives
  \<^verbatim>\<open>loading\<close>.  This holds in every state a Query reaches, whatever \<open>current\<close> is, and
  again after every turn, whichever of the fields the turn has changed; states that
  agree on these fields expose the same result.  Beyond the reachable states it holds
  wherever the query is stale, or the flag \<^verbatim>\<open>hasCached\<close> is set, or \<open>current\<close> is not
  loading, or no value is held.
\<close>

theorem exposed_result_derivation:
  "(reachable q \<longrightarrow>
      exposed q = exposed_as_claimed (current q) q
      \<and> currentWithCaching cur q = exposed_as_claimed cur q)
   \<and> (reachable q \<and> step ev q = Inr q' \<longrightarrow> exposed q' = exposed_as_claimed (current q') q')
   \<and> (stale_isStale q \<or> cache_hasCached q \<or> cur \<noteq> QLoading \<or> cache_data q = None \<longrightarrow>
        currentWithCaching cur q = exposed_as_claimed cur q)
   \<and> (current q1 = current q2 \<and> stale_isStale q1 = stale_isStale q2
        \<and> cache_hasCached q1 = cache_hasCached q2 \<and> cache_data q1 = cache_data q2 \<longrightarrow>
        exposed q1 = exposed q2)"
proof -
  have a: "currentWithCaching c q0 = exposed_as_claimed c q0" if "reachable q0"
    for c and q0 :: "('a, 'b) query"
    using reachable_stale [OF that] by (simp add: derivation_agrees)
  have b: "exposed q' = exposed_as_claimed (current q') q'"
    if "reachable q" and "step ev q = Inr q'"
    using a [OF reachable.turn [OF that]] by (simp add: exposed_def)
  have c: "exposed q1 = exposed q2"
    if "current q1 = current q2" and "stale_isStale q1 = stale_isStale q2"
      and "cache_hasCached q1 = cache_hasCached q2" and "cache_data q1 = cache_data q2"
    using that by (auto simp add: exposed_def currentWithCaching_def)
  show ?thesis
    using a [of q] b c derivation_agrees [of q cur] by (simp add: exposed_def)
qed

theorem exposed_result_derivation_witness:
  "reachable fresh_query
   \<and> exposed fresh_query = exposed_as_claimed (current fresh_query) fresh_query
   \<and> exposed fresh_query = QLoading
   \<and> (\<exists>q'. step (FetchSettled (FetchOk 7)) fresh_query = Inr q'
         \<and> exposed q' = exposed_as_claimed (current q') q' \<and> exposed q' = QOk 7)
   \<and> cache_hasCached served_query
   \<and> currentWithCaching QLoading served_query = exposed_as_claimed QLoading served_query
   \<and> currentWithCaching QLoading served_query = QOk 7
   \<and> currentWithCaching (QErr False ''denied'') served_query = QErr False ''denied''
   \<and> exposed (fresh_query\<lparr>fetchCalls := 9\<rparr>) = exposed fresh_query"
proof -
  let ?q0 = "(init_query default_options True 0 :: (nat, string) query)
     \<lparr>isFetching := True, current := QLoading, fetchCalls := Suc 0, pc := AwaitingFetch 0\<rparr>"
  let ?q1 = "(setData 7 (?q0\<lparr>pc := Settled, current := QOk 7\<rparr>))\<lparr>isFetching := False\<rparr>"
  have r: "reachable fresh_query" unfolding fresh_query_def by (rule reachable.created)
  have f: "fresh_query = ?q0"
    by (simp add: fresh_query_def new_Query_def fetcher_def fetcher_loop_def init_query_def)
  have l: "exposed ?q0 = QLoading"
    by (simp add: exposed_def currentWithCaching_def init_query_def)
  have s: "step (FetchSettled (FetchOk 7)) fresh_query = Inr ?q1"
    by (simp add: f step_def fetcher_resume_def fetcher_body_def fetcher_finish_def)
  have e1: "exposed ?q1 = QOk 7"
    by (simp add: exposed_def currentWithCaching_def setData_def resetStaleTimer_def Let_def
        init_query_def default_options_def)
  have h: "cache_hasCached served_query"
    by (simp add: served_query_def setData_def resetStaleTimer_def Let_def split: option.splits)
  have v: "currentWithCaching QLoading served_query = QOk 7"
    "currentWithCaching (QErr False ''denied'') served_query = QErr False ''denied''"
    by (simp_all add: served_query_def currentWithCaching_def setData_def resetStaleTimer_def
        Let_def split: option.splits)
  have 1: "exposed fresh_query = exposed_as_claimed (current fresh_query) fresh_query"
    using exposed_result_derivation [of fresh_query QLoading] r by blast
  have 2: "exposed ?q1 = exposed_as_claimed (current ?q1) ?q1"
    using exposed_result_derivation [of fresh_query QLoading "FetchSettled (FetchOk 7)" ?q1] r s
    by blast
  have 3: "currentWithCaching QLoading served_query = exposed_as_claimed QLoading served_query"
    using exposed_result_derivation [of served_query QLoading] h by blast
  have 4: "exposed (fresh_query\<lparr>fetchCalls := 9\<rparr>) = exposed fresh_query"
    using exposed_result_derivation [of fresh_query QLoading Subscribe fresh_query
        "fresh_query\<lparr>fetchCalls := 9\<rparr>" fresh_query]
    by simp
  have 5: "exposed fresh_query = QLoading" using f l by simp
  from s e1 2 have "\<exists>q'. step (FetchSettled (FetchOk 7)) fresh_query = Inr q'
         \<and> exposed q' = exposed_as_claimed (current q') q' \<and> exposed q' = QOk 7"
    by blast
  with r 1 5 h 3 v 4 show ?thesis by blast
qed

text \<open>
  Claim C9: no operation sets \<^verbatim>\<open>stale.isStale\<close> back to false.  It is true at creation,
  no turn clears it, \<^verbatim>\<open>setData\<close> and \<^verbatim>\<open>resetStaleTimer\<close> leave it as it is; so it is
  true in every reachable state, and the exposed result is always computed by the
  stale branch of the derivation.
\<close>

theorem isStale_never_cleared:
  assumes "reachable q"
  shows "stale_isStale q
     \<and> stale_isStale (setData data q)
     \<and> stale_isStale (resetStaleTimer cur q)
     \<and> exposed q =
         (if current q = QIdle then QIdle
          else if cache_hasCached q \<and> cache_data q \<noteq> None then QOk (the (cache_data q))
          else QLoading)"
proof -
  have s: "stale_isStale q" using assms by (rule reachable_stale)
  then show ?thesis
    by (simp add: setData_keeps_stale resetStaleTimer_keeps_stale exposed_def
        currentWithCaching_def)
qed

theorem isStale_never_cleared_witness:
  "reachable timed_query
   \<and> stale_isStale timed_query
   \<and> stale_isStale (setData 7 timed_query)
   \<and> stale_isStale (resetStaleTimer (QOk 7) timed_query)
   \<and> exposed timed_query = QLoading"
proof -
  have r: "reachable timed_query" unfolding timed_query_def by (rule reachable.created)
  have c: "current timed_query = QLoading \<and> \<not> cache_hasCached timed_query"
    by (simp add: timed_query_def timed_options_def new_Query_def init_query_def fetcher_def
        fetcher_loop_def)
  from r c isStale_never_cleared [OF r, of 7 "QOk 7"] show ?thesis by simp
qed


subsection \<open>Retries\<close>

lemma run_fetch_settled: "pc q = Settled \<Longrightarrow> run_fetch rs q = Inr q"
  by (cases rs) simp_all

lemma fetcher_enters:
  "browser q \<Longrightarrow> stale_isStale q \<Longrightarrow> \<not> isFetching q \<Longrightarrow> stoppedBy q = {} \<Longrightarrow>
   fetcher q = q\<lparr>isFetching := True, current := QLoading,
                 fetchCalls := Suc (fetchCalls q), pc := AwaitingFetch 0\<rparr>"
  by (simp add: fetcher_def fetcher_loop_def)

text \<open>One retry that shows \<^verbatim>\<open>loading\<close>: the delay is noted and the fetch is called again.\<close>

lemma retry_round:
  assumes "pc q = AwaitingFetch count" and "stoppedBy q = {}"
    and "onRetry (options q) (Suc count) e = Some w"
  shows "run_fetch (FetchRetry e False # rs) q =
     run_fetch rs (q\<lparr>current := QLoading, retryWaits := retryWaits q @ [w],
                      fetchCalls := Suc (fetchCalls q), pc := AwaitingFetch (Suc count)\<rparr>)"
  using assms
  by (simp add: fetcher_resume_def fetcher_body_def fetcher_retry_def fetcher_loop_def Let_def)

text \<open>The retry that \<^verbatim>\<open>onRetry\<close> refuses ends the fetch with the error.\<close>

lemma retry_refused:
  assumes "pc q = AwaitingFetch count" and "isFetching q"
    and "onRetry (options q) (Suc count) e = None"
  shows "\<exists>q'. run_fetch (FetchRetry e False # rs) q = Inr q'
     \<and> fetchCalls q' = fetchCalls q \<and> retryWaits q' = retryWaits q
     \<and> current q' = QErr False e \<and> \<not> isFetching q' \<and> pc q' = Settled
     \<and> \<not> cache_hasCached q'"
proof -
  let ?q' = "(clearCache False (q\<lparr>pc := Settled, current := QErr False e\<rparr>))\<lparr>isFetching := False\<rparr>"
  have r: "fetcher_resume (FetchRetry e False) q = Inr ?q'"
    using assms by (simp add: fetcher_resume_def fetcher_body_def fetcher_finish_def)
  have p: "pc ?q' = Settled \<and> fetchCalls ?q' = fetchCalls q \<and> retryWaits ?q' = retryWaits q
     \<and> current ?q' = QErr False e \<and> \<not> isFetching ?q' \<and> \<not> cache_hasCached ?q'"
    using assms(2) by (simp add: clearCache_def markStale_while_fetching)
  have "fetcher_retry ?q' = ?q'" using p by (simp add: fetcher_retry_def)
  then have "run_fetch (FetchRetry e False # rs) q = Inr ?q'"
    using assms(1) r p by (simp add: run_fetch_settled)
  with p show ?thesis by blast
qed

text \<open>
  Claim C6: with an \<^verbatim>\<open>onRetry\<close> that returns 0, 0 and \<^verbatim>\<open>false\<close> for the counts 1, 2
  and 3, a fetch whose every attempt returns \<^verbatim>\<open>retry{err, returnError: false}\<close> calls
  \<^verbatim>\<open>fetch\<close> three times, waits twice (0 ms each) and ends with \<open>current\<close> equal to
  \<^verbatim>\<open>err{isRefetching: false, err}\<close>; what the caller's \<^verbatim>\<open>fetch\<close> would return after that
  (\<open>rest\<close>) is never asked for.
\<close>

theorem two_retries_then_err:
  assumes "browser q" and "stale_isStale q" and "\<not> isFetching q" and "stoppedBy q = {}"
    and "onRetry (options q) 1 e = Some 0"
    and "onRetry (options q) 2 e = Some 0"
    and "onRetry (options q) 3 e = None"
  shows "\<exists>q'. run_fetch (FetchRetry e False # FetchRetry e False # FetchRetry e False # rest)
                 (fetcher q) = Inr q'
     \<and> fetchCalls q' = fetchCalls q + 3
     \<and> retryWaits q' = retryWaits q @ [0, 0]
     \<and> current q' = QErr False e \<and> \<not> isFetching q' \<and> pc q' = Settled"
proof -
  let ?q0 = "q\<lparr>isFetching := True, current := QLoading,
                 fetchCalls := Suc (fetchCalls q), pc := AwaitingFetch 0\<rparr>"
  let ?q1 = "?q0\<lparr>current := QLoading, retryWaits := retryWaits ?q0 @ [0],
                 fetchCalls := Suc (fetchCalls ?q0), pc := AwaitingFetch (Suc 0)\<rparr>"
  let ?q2 = "?q1\<lparr>current := QLoading, retryWaits := retryWaits ?q1 @ [0],
                 fetchCalls := Suc (fetchCalls ?q1), pc := AwaitingFetch (Suc (Suc 0))\<rparr>"
  have 0: "fetcher q = ?q0" using assms(1-4) by (rule fetcher_enters)
  have 1: "run_fetch (FetchRetry e False # rs) ?q0 = run_fetch rs ?q1" for rs
    using assms(4,5) by (intro retry_round) simp_all
  have 2: "run_fetch (FetchRetry e False # rs) ?q1 = run_fetch rs ?q2" for rs
    using assms(4,6) by (intro retry_round) (simp_all add: eval_nat_numeral)
  have "\<exists>q'. run_fetch (FetchRetry e False # rest) ?q2 = Inr q'
     \<and> fetchCalls q' = fetchCalls ?q2 \<and> retryWaits q' = retryWaits ?q2
     \<and> current q' = QErr False e \<and> \<not> isFetching q' \<and> pc q' = Settled
     \<and> \<not> cache_hasCached q'"
    using assms(7) by (intro retry_refused) (simp_all add: eval_nat_numeral)
  then obtain q' where
    r: "run_fetch (FetchRetry e False # rest) ?q2 = Inr q'"
    and f: "fetchCalls q' = fetchCalls ?q2" and w: "retryWaits q' = retryWaits ?q2"
    and c: "current q' = QErr False e \<and> \<not> isFetching q' \<and> pc q' = Settled"
    by blast
  have "run_fetch (FetchRetry e False # FetchRetry e False # FetchRetry e False # rest)
          (fetcher q) = Inr q'"
    using 0 1 2 r by simp
  moreover have "fetchCalls q' = fetchCalls q + 3" using f by simp
  moreover have "retryWaits q' = retryWaits q @ [0, 0]" using w by simp
  ultimately show ?thesis using c by blast
qed

theorem two_retries_then_err_witness:
  "\<exists>q'. run_fetch [FetchRetry ''offline'' False, FetchRetry ''offline'' False,
                    FetchRetry ''offline'' False]
          (fetcher (init_query two_retry_options True 0)) = Inr q'
     \<and> fetchCalls q' = 3 \<and> retryWaits q' = [0, 0]
     \<and> current q' = QErr False ''offline'' \<and> \<not> isFetching q' \<and> pc q' = Settled"
proof -
  let ?q = "init_query two_retry_options True 0"
  have h: "browser ?q" "stale_isStale ?q" "\<not> isFetching ?q" "stoppedBy ?q = {}"
    "onRetry (options ?q) 1 ''offline'' = Some 0"
    "onRetry (options ?q) 2 ''offline'' = Some 0"
    "onRetry (options ?q) 3 ''offline'' = None"
    by (simp_all add: init_query_def two_retry_options_def)
  have z: "fetchCalls ?q = 0" "retryWaits ?q = []" by (simp_all add: init_query_def)
  from two_retries_then_err [OF h, of "[]"] z show ?thesis by simp
qed

text \<open>
  Claim C3 says that with the default options a fetch that always asks for a retry
  calls \<^verbatim>\<open>fetch\<close> three times.  The default \<^verbatim>\<open>onRetry\<close> is \<^verbatim>\<open>count > 3 ? false : 0\<close>: it
  grants the retries of the counts 1, 2 and 3 and refuses the fourth, so \<^verbatim>\<open>fetch\<close> is
  called four times, with three waits of 0 ms.
\<close>

theorem default_onRetry_four_fetches:
  "\<exists>q'. run_fetch [FetchRetry ''offline'' False, FetchRetry ''offline'' False,
                    FetchRetry ''offline'' False, FetchRetry ''offline'' False,
                    FetchRetry ''offline'' False]
          fresh_query = Inr q'
     \<and> fetchCalls q' = 4 \<and> retryWaits q' = [0, 0, 0]
     \<and> current q' = QErr False ''offline'' \<and> pc q' = Settled"
proof -
  let ?r = "FetchRetry ''offline'' False :: (nat, string) fetch_result"
  let ?q0 = "unstarted_query\<lparr>isFetching := True, current := QLoading,
                 fetchCalls := Suc (fetchCalls unstarted_query), pc := AwaitingFetch 0\<rparr>"
  let ?q1 = "?q0\<lparr>current := QLoading, retryWaits := retryWaits ?q0 @ [0],
                 fetchCalls := Suc (fetchCalls ?q0), pc := AwaitingFetch (Suc 0)\<rparr>"
  let ?q2 = "?q1\<lparr>current := QLoading, retryWaits := retryWaits ?q1 @ [0],
                 fetchCalls := Suc (fetchCalls ?q1), pc := AwaitingFetch (Suc (Suc 0))\<rparr>"
  let ?q3 = "?q2\<lparr>current := QLoading, retryWaits := retryWaits ?q2 @ [0],
                 fetchCalls := Suc (fetchCalls ?q2), pc := AwaitingFetch (Suc (Suc (Suc 0)))\<rparr>"
  have u: "browser unstarted_query" "stale_isStale unstarted_query"
    "\<not> isFetching unstarted_query" "stoppedBy unstarted_query = {}"
    "fetchCalls unstarted_query = 0" "retryWaits unstarted_query = []"
    "options unstarted_query = default_options"
    by (simp_all add: unstarted_query_def init_query_def)
  have d: "onRetry (default_options :: (nat, string) use_query_options) (Suc 0) ''offline'' = Some 0"
    "onRetry (default_options :: (nat, string) use_query_options) (Suc (Suc 0)) ''offline'' = Some 0"
    "onRetry (default_options :: (nat, string) use_query_options) (Suc (Suc (Suc 0))) ''offline'' = Some 0"
    "onRetry (default_options :: (nat, string) use_query_options) (Suc (Suc (Suc (Suc 0)))) ''offline'' = None"
    by (simp_all add: default_options_def)
  have 0: "fresh_query = ?q0"
    unfolding fresh_query_def new_Query_def unstarted_query_def [symmetric]
    using u(1-4) by (simp add: fetcher_enters)
  have 1: "run_fetch (?r # rs) ?q0 = run_fetch rs ?q1" for rs
    using u d by (intro retry_round) simp_all
  have 2: "run_fetch (?r # rs) ?q1 = run_fetch rs ?q2" for rs
    using u d by (intro retry_round) simp_all
  have 3: "run_fetch (?r # rs) ?q2 = run_fetch rs ?q3" for rs
    using u d by (intro retry_round) simp_all
  have "\<exists>q'. run_fetch [?r, ?r] ?q3 = Inr q'
     \<and> fetchCalls q' = fetchCalls ?q3 \<and> retryWaits q' = retryWaits ?q3
     \<and> current q' = QErr False ''offline'' \<and> \<not> isFetching q' \<and> pc q' = Settled
     \<and> \<not> cache_hasCached q'"
    using u d by (intro retry_refused) simp_all
  then obtain q' where
    r: "run_fetch [?r, ?r] ?q3 = Inr q'"
    and f: "fetchCalls q' = fetchCalls ?q3" and w: "retryWaits q' = retryWaits ?q3"
    and c: "current q' = QErr False ''offline'' \<and> pc q' = Settled"
    by blast
  have "run_fetch [?r, ?r, ?r, ?r, ?r] fresh_query = Inr q'"
    using 0 1 2 3 r by simp
  moreover have "fetchCalls q' = 4" using f u by simp
  moreover have "retryWaits q' = [0, 0, 0]" using w u by simp
  ultimately show ?thesis using c by blast
qed

subsection \<open>Leaving the fetch loop\<close>

text \<open>
  Claim C8: when the loop is left by \<^verbatim>\<open>break\<close>, that is on every way out but the one
  through \<^verbatim>\<open>stoppedBy\<close>, \<open>current\<close> is \<^verbatim>\<open>ok\<close> or \<^verbatim>\<open>err\<close>; so the check after the loop never
  throws: neither the turn that resumes the fetcher nor any other turn ends in the
  error.
\<close>

theorem fetcher_never_throws:
  "(fetcher_body r count q = Break q' \<longrightarrow>
      (\<exists>data. current q' = QOk data) \<or> (\<exists>b e. current q' = QErr b e))
   \<and> fetcher_resume r q \<noteq> Inl err
   \<and> step ev q \<noteq> Inl err"
proof -
  have a: "fetcher_body r count q = Break q' \<longrightarrow>
      (\<exists>data. current q' = QOk data) \<or> (\<exists>b e. current q' = QErr b e)"
    by (auto simp add: fetcher_body_def Let_def split: fetch_result.splits option.splits)
  have b: "fetcher_resume r q \<noteq> Inl err" for r :: "('a, 'b) fetch_result"
    by (auto simp add: fetcher_resume_def fetcher_body_def fetcher_finish_def Let_def
        split: fetch_pc.splits fetch_result.splits option.splits)
  have "step ev q \<noteq> Inl err"
    by (cases ev) (simp_all add: step_def b)
  with a b show ?thesis by blast
qed

theorem fetcher_never_throws_witness:
  "fetcher_body (FetchErr ''denied'') 0 unstarted_query
     = Break (unstarted_query\<lparr>current := QErr False ''denied''\<rparr>)
   \<and> ((\<exists>data. current (unstarted_query\<lparr>current := QErr False ''denied''\<rparr>) = QOk data)
      \<or> (\<exists>b e. current (unstarted_query\<lparr>current := QErr False ''denied''\<rparr>) = QErr b e))
   \<and> fetcher_resume (FetchErr ''denied'') fresh_query \<noteq> Inl CurrentIdleOrLoading
   \<and> step (FetchSettled (FetchErr ''denied'')) fresh_query \<noteq> Inl CurrentIdleOrLoading"
proof -
  have h: "fetcher_body (FetchErr ''denied'') 0 unstarted_query
     = Break (unstarted_query\<lparr>current := QErr False ''denied''\<rparr>)"
    by (simp add: fetcher_body_def)
  from h fetcher_never_throws [of "FetchErr ''denied''" 0 unstarted_query
      "unstarted_query\<lparr>current := QErr False ''denied''\<rparr>" CurrentIdleOrLoading
      "FetchSettled (FetchErr ''denied'')"]
    fetcher_never_throws [of "FetchErr ''denied''" 0 fresh_query
      "unstarted_query\<lparr>current := QErr False ''denied''\<rparr>" CurrentIdleOrLoading
      "FetchSettled (FetchErr ''denied'')"]
  show ?thesis by blast
qed

subsection \<open>Stopping\<close>

text \<open>
  Claim C7: when \<^verbatim>\<open>onChange\<close> of dependency \<open>i\<close> returns \<^verbatim>\<open>'stop'\<close>, \<open>i\<close> is added to
  \<^verbatim>\<open>stoppedBy\<close> and \<^verbatim>\<open>invalidateAndRefetch\<close> is called, and this calls \<^verbatim>\<open>fetch\<close> not once.
  A fetch loop entered while \<^verbatim>\<open>stoppedBy\<close> is not empty sets \<open>current\<close> to \<^verbatim>\<open>idle\<close> and
  returns, leaving \<open>fetchCalls\<close> as it was, and subscribers see \<^verbatim>\<open>idle\<close>; so does a loop that
  comes back to its head after a retry delay.
\<close>

theorem stop_blocks_fetch:
  "dependencyChanged i Stop q = invalidateAndRefetch (q\<lparr>stoppedBy := insert i (stoppedBy q)\<rparr>)
   \<and> i \<in> stoppedBy (dependencyChanged i Stop q)
   \<and> fetchCalls (dependencyChanged i Stop q) = fetchCalls q
   \<and> (stoppedBy q \<noteq> {} \<and> browser q \<and> stale_isStale q \<and> \<not> isFetching q \<longrightarrow>
        fetcher q = q\<lparr>isFetching := False, current := QIdle\<rparr>
        \<and> exposed (fetcher q) = QIdle)
   \<and> (stoppedBy q \<noteq> {} \<and> pc q = AwaitingRetry count \<longrightarrow>
        fetcher_retry q = q\<lparr>pc := Settled, current := QIdle, isFetching := False\<rparr>
        \<and> exposed (fetcher_retry q) = QIdle)"
  by (simp add: dependencyChanged_def invalidateAndRefetch_def clearCache_def markStale_def
      fetcher_def fetcher_loop_def fetcher_retry_def Let_def exposed_def currentWithCaching_def)

theorem stop_blocks_fetch_witness:
  "2 \<in> stoppedBy (dependencyChanged 2 Stop unstarted_query)
   \<and> fetchCalls (dependencyChanged 2 Stop unstarted_query) = 0
   \<and> current (fetcher stopped_query) = QIdle
   \<and> exposed (fetcher stopped_query) = QIdle
   \<and> fetchCalls (fetcher stopped_query) = 0
   \<and> \<not> isFetching (fetcher stopped_query)
   \<and> current (fetcher_retry (stopped_query\<lparr>pc := AwaitingRetry 0\<rparr>)) = QIdle
   \<and> fetchCalls (fetcher_retry (stopped_query\<lparr>pc := AwaitingRetry 0\<rparr>)) = 0"
proof -
  have h: "stoppedBy stopped_query \<noteq> {} \<and> browser stopped_query
      \<and> stale_isStale stopped_query \<and> \<not> isFetching stopped_query"
    "fetchCalls stopped_query = 0" "fetchCalls unstarted_query = 0"
    by (simp_all add: stopped_query_def unstarted_query_def init_query_def)
  have a: "2 \<in> stoppedBy (dependencyChanged 2 Stop unstarted_query)
      \<and> fetchCalls (dependencyChanged 2 Stop unstarted_query) = 0"
    using stop_blocks_fetch [of 2 unstarted_query 0] h(3) by (elim conjE) simp
  have b: "fetcher stopped_query = stopped_query\<lparr>isFetching := False, current := QIdle\<rparr>"
    using stop_blocks_fetch [of 2 stopped_query 0] h(1) by blast
  have b': "exposed (fetcher stopped_query) = QIdle"
    using stop_blocks_fetch [of 2 stopped_query 0] h(1) by blast
  have c: "fetcher_retry (stopped_query\<lparr>pc := AwaitingRetry 0\<rparr>)
      = stopped_query\<lparr>pc := AwaitingRetry 0\<rparr>\<lparr>pc := Settled, current := QIdle, isFetching := False\<rparr>"
    using stop_blocks_fetch [of 2 "stopped_query\<lparr>pc := AwaitingRetry 0\<rparr>" 0] h(1) by simp
  show ?thesis using a h(2) b' by (simp add: b c)
qed

subsection \<open>Success and failure of a fetch\<close>

lemma new_Query_enters:
  "new_Query opts True [] t =
     (init_query opts True t)\<lparr>isFetching := True, current := QLoading,
        fetchCalls := Suc 0, pc := AwaitingFetch 0\<rparr>"
  by (simp add: new_Query_def fetcher_def fetcher_loop_def init_query_def)

lemma fetch_ok_settles:
  assumes "pc q = AwaitingFetch count"
  shows "fetcher_resume (FetchOk data) q
     = Inr ((setData data (q\<lparr>pc := Settled, current := QOk data\<rparr>))\<lparr>isFetching := False\<rparr>)"
  using assms by (simp add: fetcher_resume_def fetcher_body_def fetcher_finish_def)

lemma fetch_err_settles:
  assumes "pc q = AwaitingFetch count" and "isFetching q"
  shows "\<exists>q'. fetcher_resume (FetchErr e) q = Inr q'
     \<and> current q' = QErr False e \<and> \<not> cache_hasCached q' \<and> stale_isStale q'
     \<and> exposed q' = QLoading"
proof -
  let ?q' = "(clearCache False (q\<lparr>pc := Settled, current := QErr False e\<rparr>))\<lparr>isFetching := False\<rparr>"
  have r: "fetcher_resume (FetchErr e) q = Inr ?q'"
    using assms(1) by (simp add: fetcher_resume_def fetcher_body_def fetcher_finish_def)
  have p: "current ?q' = QErr False e \<and> \<not> cache_hasCached ?q' \<and> stale_isStale ?q'"
    using assms(2) by (simp add: clearCache_def markStale_while_fetching)
  then have "exposed ?q' = QLoading"
    by (simp add: exposed_def currentWithCaching_def)
  with r p show ?thesis by blast
qed

lemma setData_fields:
  "current (setData data q) = QOk data"
  "cache_hasCached (setData data q)"
  "cache_data (setData data q) = Some data"
  "stale_timeout (setData data q) = opt_stale_duration (options q) (QOk data)"
  "stale_duration (setData data q) = opt_stale_duration (options q) (QOk data)"
  "stale_turnsStaleAt (setData data q)
     = map_option (\<lambda>d. now q + d) (opt_stale_duration (options q) (QOk data))"
  "isFetching (setData data q) = isFetching q"
  "browser (setData data q) = browser q"
  "stoppedBy (setData data q) = stoppedBy q"
  "pc (setData data q) = pc q"
  by (simp_all add: setData_def resetStaleTimer_def Let_def split: option.splits)

text \<open>
  Claim C2 says that a stale query has no staleness timer and no \<^verbatim>\<open>turnsStaleAt\<close>.  The
  staleness reset after a success breaks it when \<^verbatim>\<open>options.stale.duration\<close> returns a
  number: \<open>timed_query\<close> (duration 1000) is created at time 0 and its first fetch
  succeeds; afterwards the query is still stale, while a timer of 1000 ms is pending
  and \<^verbatim>\<open>turnsStaleAt\<close> is 1000.
\<close>

theorem stale_timer_armed_while_stale:
  "\<exists>q'. step (FetchSettled (FetchOk 7)) timed_query = Inr q'
     \<and> current q' = QOk 7
     \<and> stale_isStale q'
     \<and> stale_timeout q' = Some 1000
     \<and> stale_turnsStaleAt q' = Some 1000"
proof -
  let ?q0 = "(init_query timed_options True 0)\<lparr>isFetching := True, current := QLoading,
        fetchCalls := Suc 0, pc := AwaitingFetch 0\<rparr>"
  let ?q' = "(setData 7 (?q0\<lparr>pc := Settled, current := QOk 7\<rparr>))\<lparr>isFetching := False\<rparr>"
  have t: "timed_query = ?q0" unfolding timed_query_def by (rule new_Query_enters)
  have "fetcher_resume (FetchOk 7) ?q0 = Inr ?q'"
    by (rule fetch_ok_settles [of _ 0]) simp
  then have s: "step (FetchSettled (FetchOk 7)) timed_query = Inr ?q'"
    by (simp add: step_def t)
  have o: "opt_stale_duration (options ?q0) (QOk 7) = Some 1000" "now ?q0 = 0"
    "stale_isStale ?q0"
    by (simp_all add: init_query_def timed_options_def)
  have "current ?q' = QOk 7 \<and> stale_isStale ?q' \<and> stale_timeout ?q' = Some 1000
     \<and> stale_turnsStaleAt ?q' = Some 1000"
    using o by (simp add: setData_fields setData_keeps_stale)
  with s show ?thesis by blast
qed

text \<open>
  Claim C4 says that a fetch ending in \<^verbatim>\<open>err\<close> clears the cache and that the error is
  what subscribers then see.  The cache is cleared and \<open>current\<close> is the error, but the
  subscribers are shown \<^verbatim>\<open>loading\<close>: \<open>fresh_query\<close> fetches 7 and shows it, is refetched,
  and the refetch fails.
\<close>

theorem terminal_err_exposed_as_loading:
  "\<exists>q1 q2 q3.
     step (FetchSettled (FetchOk 7)) fresh_query = Inr q1
     \<and> cache_hasCached q1 \<and> exposed q1 = QOk 7
     \<and> step CallRefetch q1 = Inr q2
     \<and> step (FetchSettled (FetchErr ''denied'')) q2 = Inr q3
     \<and> current q3 = QErr False ''denied''
     \<and> \<not> cache_hasCached q3
     \<and> exposed q3 = QLoading"
proof -
  let ?q0 = "(init_query default_options True 0 :: (nat, string) query)
     \<lparr>isFetching := True, current := QLoading, fetchCalls := Suc 0, pc := AwaitingFetch 0\<rparr>"
  let ?q1 = "(setData 7 (?q0\<lparr>pc := Settled, current := QOk 7\<rparr>))\<lparr>isFetching := False\<rparr>"
  let ?q2 = "refetch ?q1"
  have f: "fresh_query = ?q0" unfolding fresh_query_def by (rule new_Query_enters)
  have "fetcher_resume (FetchOk 7) ?q0 = Inr ?q1"
    by (rule fetch_ok_settles [of _ 0]) simp
  then have 1: "step (FetchSettled (FetchOk 7)) fresh_query = Inr ?q1"
    by (simp add: step_def f)
  have s0: "stale_isStale ?q0" "browser ?q0" "stoppedBy ?q0 = {}"
    by (simp_all add: init_query_def)
  have c1: "cache_hasCached ?q1 \<and> exposed ?q1 = QOk 7"
    using s0(1) by (simp add: exposed_def currentWithCaching_def setData_fields setData_keeps_stale)
  have 2: "step CallRefetch ?q1 = Inr ?q2" by (simp add: step_def)
  have p2: "pc ?q2 = AwaitingFetch 0 \<and> isFetching ?q2"
    using s0 by (simp add: refetch_def markStale_def Let_def fetcher_def fetcher_loop_def
        setData_fields)
  then obtain q3 where
    3: "fetcher_resume (FetchErr ''denied'') ?q2 = Inr q3"
    and c3: "current q3 = QErr False ''denied'' \<and> \<not> cache_hasCached q3 \<and> exposed q3 = QLoading"
    using fetch_err_settles [of ?q2 0 "''denied''"] by blast
  from 3 have "step (FetchSettled (FetchErr ''denied'')) ?q2 = Inr q3"
    by (simp add: step_def)
  with 1 c1 2 c3 show ?thesis by blast
qed

section \<open>Properties of the options merge\<close>

text \<open>
  Claim C5 says that an option the caller leaves out keeps its default, also when the
  caller gives only a neighbour of it in the same group.  The spread copies the
  caller's group over the default group as a whole: with
  \<^verbatim>\<open>{ stale: { onSubscribeIfUnused: true } }\<close> the merged \<^verbatim>\<open>stale.duration\<close> and
  \<^verbatim>\<open>stale.refetchIfUnused\<close> are \<^verbatim>\<open>undefined\<close>, while the defaults hold a function and
  \<^verbatim>\<open>false\<close>.  Groups the caller does not mention keep their defaults.
\<close>

theorem nested_option_group_replaced:
  "read_path (merged_options (JObject [(''stale'', JObject [(''onSubscribeIfUnused'', JAtom (ABool True))])]))
      [''stale'', ''duration''] = Some JUndefined
   \<and> read_path (merged_options (JObject [(''stale'', JObject [(''onSubscribeIfUnused'', JAtom (ABool True))])]))
      [''stale'', ''refetchIfUnused''] = Some JUndefined
   \<and> read_path default_options_object [''stale'', ''duration'']
      = Some (JAtom (AFunction ''() => false''))
   \<and> read_path default_options_object [''stale'', ''refetchIfUnused''] = Some (JAtom (ABool False))
   \<and> read_path (merged_options (JObject [(''stale'', JObject [(''onSubscribeIfUnused'', JAtom (ABool True))])]))
      [''cache'', ''duration''] = Some (JAtom (AFunction ''() => false''))"
  by (simp add: merged_options_def default_options_object_def spread_def)

section \<open>Properties of the query map\<close>










text \<open>
  \<^verbatim>\<open>useQuery\<close> puts the new store into the tree through \<^verbatim>\<open>queryMap.update\<close>, which sets
  the value of the store: this write is counted.  So is \<open>example_realm\<close> made.
\<close>

lemma useQuery_register_sets:
  "useQuery_register R key q = Some (R', False) \<Longrightarrow> queryMap_sets R' = Suc (queryMap_sets R)"
  by (auto simp add: useQuery_register_def Let_def assign_def
      split: option.splits if_splits root.splits)

lemma example_realm_registered:
  "useQuery_register empty_realm [''user''] fresh_query = Some (example_realm, False)"
  by (simp add: useQuery_register_def empty_realm_def example_realm_def object_at_def
      root_node_def assign_def)




end
